theory Spec2Isabelle
  imports Complex_Main "HOL-Library.Char_ord" "HOL-Library.List_Lexorder"
begin

section \<open>Epoch collections of \<open>mne/epochs.py\<close>\<close>

text \<open>
  A shallow embedding of the parts of \<open>mne/epochs.py\<close> that manage the bookkeeping of an
  epoch collection: the events, the selection, the drop log, the rejection thresholds and
  the pass that drops bad epochs.

  Python exceptions are values of the type \<open>error\<close>. A method that mutates \<open>self\<close> is a
  function from the state to a pair: the exception raised (\<open>None\<close> when the call returns)
  and the state the call leaves behind, so that what a failed call has already changed
  is part of the model.
\<close>

subsection \<open>Data model\<close>

datatype error =
    IndexError int
  | IndexError_out_of_range
  | ValueError_indices_ndim
  | ValueError_item
  | ValueError_zero_size
  | ValueError_no_channel string
  | ValueError_bad_value string
  | ValueError_not_stringent string string
  | ValueError_strings
  | ValueError_event_ids
  | ValueError_split_too_small int
  | ValueError_too_many_parts int
  | ValueError_no_events
  | ValueError_method
  | KeyError string
  | RuntimeError_not_unique
  | ZeroDivisionError
  | AssertionError
  | AttributeError
  | ValueError_shapes
  | ValueError_not_in_list
  | ValueError_option

text \<open>An event is a row \<open>(sample, prior code, code)\<close> of the events array.\<close>

type_synonym event = "int \<times> int \<times> int"

text \<open>One epoch is an array of shape \<open>(n_channels, n_times)\<close>: a list of channel rows.\<close>

type_synonym epoch = "real list list"

text \<open>
  What \<open>_get_epoch_from_raw\<close> returns: an array, a string (the reason why the segment
  is rejected, for instance an annotation) or \<open>None\<close>.
\<close>

datatype raw_epoch = Segment epoch | Reason string | NoData

text \<open>
  The thresholds \<open>reject\<close> and \<open>flat\<close> are dicts from a channel type to a number. A dict
  is an association list in insertion order, read with \<open>map_of\<close>. The numbers are
  Python floats, here real numbers: the values \<open>None\<close>, \<open>inf\<close> and \<open>nan\<close> are outside the
  type. The default \<open>np.inf\<close> (or \<open>-np.inf\<close>) that the code takes for a missing key is
  the value \<open>None\<close> of a lookup.
\<close>

type_synonym thresholds = "(string \<times> real) list"

record epochs =
  events :: "event list"
  selection :: "nat list"
  drop_log :: "string list list"
  event_id :: "(string \<times> int) list"
  reject :: "thresholds option"
  flat :: "thresholds option"
  bad_dropped :: bool
  preload :: bool
  data :: "epoch list"
  raw_source :: "(int \<times> raw_epoch) list"
  do_delayed_proj :: bool
  proj :: bool
  projector :: "real list list option"
  n_times :: nat
  reject_time :: "(nat option \<times> nat option) option"
  ch_names :: "string list"
  channel_type_idx :: "(string \<times> nat list) list"
  bads :: "string list"

subsection \<open>Array helpers\<close>

text \<open>\<open>np.setdiff1d(a, b)\<close>: the sorted distinct values of \<open>a\<close> that are not in \<open>b\<close>.\<close>

definition setdiff1d :: "'a::linorder list \<Rightarrow> 'a list \<Rightarrow> 'a list" where
  "setdiff1d a b = sort (remdups (filter (\<lambda>x. x \<notin> set b) a))"

text \<open>
  Indexing an array with a list of indices, \<open>a[idx]\<close>. The callers below pass indices
  that they have checked or generated in range; an index out of range raises.
\<close>

definition take_idx :: "'a list \<Rightarrow> nat list \<Rightarrow> error + 'a list" where
  "take_idx a idx =
     (if \<forall>i \<in> set idx. i < length a then Inr (map (\<lambda>i. a ! i) idx)
      else Inl IndexError_out_of_range)"

text \<open>Assigning one entry of a Python list: an index out of range raises.\<close>

definition set_entry :: "nat \<Rightarrow> ('a \<Rightarrow> 'a) \<Rightarrow> 'a list \<Rightarrow> error + 'a list" where
  "set_entry k f xs = (if k < length xs then Inr (xs[k := f (xs ! k)]) else Inl IndexError_out_of_range)"

fun set_entries :: "nat list \<Rightarrow> ('a \<Rightarrow> 'a) \<Rightarrow> 'a list \<Rightarrow> error + 'a list" where
  "set_entries [] f xs = Inr xs"
| "set_entries (k # ks) f xs =
     (case set_entry k f xs of Inl e \<Rightarrow> Inl e | Inr xs' \<Rightarrow> set_entries ks f xs')"

subsection \<open>Subsetting: \<open>_getitem\<close>\<close>

text \<open>
  Modelled from the spec: \<open>GetEpochsMixin._getitem\<close> (in \<open>mne/utils/mixin.py\<close>, called by
  \<open>drop\<close> and \<open>_get_data\<close>) is not part of the source at hand. The spec says that a drop
  "recomputes \<open>events\<close>, \<open>selection\<close>, \<open>drop_log\<close> to reflect only the good subset", that
  the drop log has "one entry per original event; empty = kept, non-empty = ordered
  reasons (e.g. \<open>USER\<close>, \<open>EQUALIZED_COUNT\<close>)" and that the selection holds "for each
  retained event, its index in the original unfiltered event stream". So: the events,
  the selection (and the data, when it is in memory and \<open>select_data\<close> is set) are
  restricted to the kept positions, and when a reason is given, the drop-log entry of
  every original index that leaves the selection becomes that reason. With no reason
  (the call of \<open>_get_data\<close>, which has written the reasons itself) the drop log stays.
\<close>

definition getitem :: "nat list \<Rightarrow> string option \<Rightarrow> bool \<Rightarrow> epochs \<Rightarrow> error option \<times> epochs" where
  "getitem item reason select_data st =
     (case take_idx (selection st) item of
        Inl e \<Rightarrow> (Some e, st)
      | Inr key_selection \<Rightarrow>
          (case (case reason of
                   None \<Rightarrow> Inr (drop_log st)
                 | Some r \<Rightarrow>
                     set_entries (setdiff1d (selection st) key_selection) (\<lambda>_. [r]) (drop_log st)) of
             Inl e \<Rightarrow> (Some e, st)
           | Inr dl \<Rightarrow>
               (case take_idx (events st) item of
                  Inl e \<Rightarrow> (Some e, st)
                | Inr evs \<Rightarrow>
                    (case (if preload st \<and> select_data then take_idx (data st) item
                           else Inr (data st)) of
                       Inl e \<Rightarrow> (Some e, st)
                     | Inr d \<Rightarrow>
                         (None, st\<lparr>events := evs, selection := key_selection,
                                   drop_log := dl, data := d\<rparr>)))))"

subsection \<open>\<open>BaseEpochs.drop\<close>\<close>

text \<open>
  \<open>drop\<close> of the source is \<open>drop_epochs\<close> here (\<open>drop\<close> is a list function of HOL).
  \<open>indices\<close> is a one-dimensional array of integers. A negative entry counts from the
  end: \<open>try_idx = np.where(indices < 0, indices + len(self.events), indices)\<close>.
\<close>

definition try_idx :: "nat \<Rightarrow> int list \<Rightarrow> int list" where
  "try_idx n indices = map (\<lambda>i. if i < 0 then i + int n else i) indices"

definition out_of_bounds :: "nat \<Rightarrow> int \<Rightarrow> bool" where
  "out_of_bounds n i \<longleftrightarrow> (let t = (if i < 0 then i + int n else i) in t < 0 \<or> t \<ge> int n)"

definition drop_keep :: "nat \<Rightarrow> int list \<Rightarrow> nat list" where
  "drop_keep n indices = setdiff1d [0..<n] (map nat (try_idx n indices))"

definition drop_epochs :: "int list \<Rightarrow> string \<Rightarrow> epochs \<Rightarrow> error option \<times> epochs" where
  "drop_epochs indices reason st =
     (let n = length (events st) in
      case filter (out_of_bounds n) indices of
        first # _ \<Rightarrow> (Some (IndexError first), st)
      | [] \<Rightarrow> getitem (drop_keep n indices) (Some reason) True st)"

subsection \<open>Rejection: \<open>_is_good\<close> and \<open>_is_good_epoch\<close>\<close>

text \<open>
  \<open>shape1 e\<close> is \<open>e.shape[1]\<close>, the number of time samples (of the first row: the rows
  of an array have one length). \<open>np.max\<close> and \<open>np.min\<close> over an empty row raise.
\<close>

definition shape1 :: "epoch \<Rightarrow> nat" where
  "shape1 e = (case e of [] \<Rightarrow> 0 | r # _ \<Rightarrow> length r)"

definition peak_to_peak :: "real list \<Rightarrow> error + real" where
  "peak_to_peak row =
     (case row of [] \<Rightarrow> Inl ValueError_zero_size
      | x # xs \<Rightarrow> Inr (fold max xs x - fold min xs x))"

fun deltas_of :: "epoch \<Rightarrow> error + real list" where
  "deltas_of [] = Inr []"
| "deltas_of (row # rows) =
     (case peak_to_peak row of
        Inl e \<Rightarrow> Inl e
      | Inr d \<Rightarrow> (case deltas_of rows of Inl e \<Rightarrow> Inl e | Inr ds \<Rightarrow> Inr (d # ds)))"

text \<open>
  The body of the loop \<open>for key, thresh in refl.items()\<close> of \<open>_is_good\<close>, with
  \<open>full_report=True\<close>: the names of the checkable channels of the type \<open>key\<close> whose
  peak-to-peak amplitude breaches \<open>thresh\<close> (\<open>f\<close> is \<open>np.greater\<close> for \<open>reject\<close> and
  \<open>np.less\<close> for \<open>flat\<close>).
\<close>

definition bad_names_of ::
  "epoch \<Rightarrow> string list \<Rightarrow> (string \<times> nat list) list \<Rightarrow> string list \<Rightarrow>
   (real \<Rightarrow> real \<Rightarrow> bool) \<Rightarrow> string \<times> real \<Rightarrow> error + string list" where
  "bad_names_of e names type_idx ignore_chs f kt =
     (case map_of type_idx (fst kt) of
        None \<Rightarrow> Inl (KeyError (fst kt))
      | Some idx \<Rightarrow>
          (if idx = [] then Inr []
           else
             (case take_idx e idx of
                Inl err \<Rightarrow> Inl err
              | Inr e_idx \<Rightarrow>
                  (case deltas_of e_idx of
                     Inl err \<Rightarrow> Inl err
                   | Inr deltas \<Rightarrow>
                       (case take_idx names idx of
                          Inl err \<Rightarrow> Inl err
                        | Inr idx_names \<Rightarrow>
                            Inr (map snd (filter (\<lambda>(d, c). f d (snd kt) \<and> c \<notin> set ignore_chs)
                                            (zip deltas idx_names))))))))"

fun bad_names_all ::
  "epoch \<Rightarrow> string list \<Rightarrow> (string \<times> nat list) list \<Rightarrow> string list \<Rightarrow>
   (real \<Rightarrow> real \<Rightarrow> bool) \<Rightarrow> thresholds \<Rightarrow> error + string list" where
  "bad_names_all e names type_idx ignore_chs f [] = Inr []"
| "bad_names_all e names type_idx ignore_chs f (kt # kts) =
     (case bad_names_of e names type_idx ignore_chs f kt of
        Inl err \<Rightarrow> Inl err
      | Inr bad \<Rightarrow>
          (case bad_names_all e names type_idx ignore_chs f kts of
             Inl err \<Rightarrow> Inl err
           | Inr rest \<Rightarrow> Inr (bad @ rest)))"

definition items_of :: "thresholds option \<Rightarrow> thresholds" where
  "items_of thr = (case thr of None \<Rightarrow> [] | Some r \<Rightarrow> r)"

text \<open>\<open>_is_good\<close> with \<open>full_report=True\<close>: the verdict and the tuple of the bad names.\<close>

definition is_good ::
  "epoch \<Rightarrow> string list \<Rightarrow> (string \<times> nat list) list \<Rightarrow> thresholds option \<Rightarrow>
   thresholds option \<Rightarrow> string list \<Rightarrow> error + bool \<times> string list" where
  "is_good e names type_idx rej flt ignore_chs =
     (case bad_names_all e names type_idx ignore_chs (\<lambda>d t. d > t) (items_of rej) of
        Inl err \<Rightarrow> Inl err
      | Inr bad_reject \<Rightarrow>
          (case bad_names_all e names type_idx ignore_chs (\<lambda>d t. d < t) (items_of flt) of
             Inl err \<Rightarrow> Inl err
           | Inr bad_flat \<Rightarrow>
               (let bad_tuple = bad_reject @ bad_flat in
                Inr (bad_tuple = [], bad_tuple))))"

text \<open>\<open>data[:, self._reject_time]\<close>, a slice with optional non-negative bounds.\<close>

definition slice_row :: "nat option \<times> nat option \<Rightarrow> 'a list \<Rightarrow> 'a list" where
  "slice_row sl row =
     (let a = (case fst sl of None \<Rightarrow> 0 | Some i \<Rightarrow> i);
          b = (case snd sl of None \<Rightarrow> length row | Some j \<Rightarrow> min j (length row))
      in List.drop a (List.take b row))"

definition is_good_epoch :: "epochs \<Rightarrow> raw_epoch \<Rightarrow> error + bool \<times> string list" where
  "is_good_epoch st d =
     (case d of
        Reason s \<Rightarrow> Inr (False, [s])
      | NoData \<Rightarrow> Inr (False, [''NO_DATA''])
      | Segment e \<Rightarrow>
          (if shape1 e < n_times st then Inr (False, [''TOO_SHORT''])
           else if reject st = None \<and> flat st = None then Inr (True, [])
           else
             is_good (case reject_time st of None \<Rightarrow> e | Some sl \<Rightarrow> map (slice_row sl) e)
               (ch_names st) (channel_type_idx st) (reject st) (flat st) (bads st)))"

subsection \<open>Projection: \<open>_project_epoch\<close>\<close>

text \<open>
  \<open>np.dot(self._projector, epoch)\<close>: the projector has one column per channel of the
  epoch, otherwise the product raises.
\<close>

definition column :: "epoch \<Rightarrow> nat \<Rightarrow> real list" where
  "column e t = map (\<lambda>row. row ! t) e"

definition np_dot :: "real list list \<Rightarrow> epoch \<Rightarrow> error + epoch" where
  "np_dot P e =
     (if (\<forall>prow \<in> set P. length prow = length e) \<and> (\<forall>row \<in> set e. length row = shape1 e)
      then Inr (map (\<lambda>prow. map (\<lambda>t. sum_list (map2 (*) prow (column e t))) [0..<shape1 e]) P)
      else Inl ValueError_shapes)"

definition project_epoch :: "epochs \<Rightarrow> raw_epoch \<Rightarrow> error + raw_epoch" where
  "project_epoch st epoch =
     (case epoch of
        NoData \<Rightarrow> Inr NoData
      | Reason s \<Rightarrow> Inr (Reason s)
      | Segment e \<Rightarrow>
          (case projector st of
             None \<Rightarrow> Inr (Segment e)
           | Some P \<Rightarrow>
               (if do_delayed_proj st \<or> proj st then
                  (case np_dot P e of Inl err \<Rightarrow> Inl err | Inr pe \<Rightarrow> Inr (Segment pe))
                else Inr (Segment e))))"

subsection \<open>Thresholds: \<open>_reject_setup\<close>\<close>

text \<open>
  The checks of \<open>_reject_setup\<close>, in the order of the source; each gives the exception
  it raises, if any. \<open>channel_indices_by_type(self.info)\<close> is the field
  \<open>channel_type_idx\<close> of the state, and \<open>_reject_time\<close>, which the method recomputes from
  the unchanged \<open>reject_tmin\<close>, \<open>reject_tmax\<close> and \<open>times\<close>, is the field \<open>reject_time\<close>.
\<close>

definition first_error :: "error option list \<Rightarrow> error option" where
  "first_error cs = (case List.find (\<lambda>c. c \<noteq> None) cs of None \<Rightarrow> None | Some c \<Rightarrow> c)"

definition check_known_types :: "(string \<times> nat list) list \<Rightarrow> string \<Rightarrow> thresholds \<Rightarrow> error option" where
  "check_known_types idx kind rej =
     (if \<exists>k \<in> set (map fst rej). map_of idx k = None then Some (KeyError kind) else None)"

definition check_channels_found ::
  "(string \<times> nat list) list \<Rightarrow> thresholds \<Rightarrow> thresholds \<Rightarrow> error option" where
  "check_channels_found idx rej flt =
     (case List.find
             (\<lambda>key. map_of idx key = Some [] \<and>
                    (map_of rej key \<noteq> None \<or>
                     (case map_of flt key of None \<Rightarrow> False | Some v \<Rightarrow> v \<ge> 0)))
             (map fst idx) of
        None \<Rightarrow> None
      | Some key \<Rightarrow> Some (ValueError_no_channel key))"

definition check_values :: "string \<Rightarrow> thresholds \<Rightarrow> error option" where
  "check_values kind rej =
     (if \<exists>v \<in> set (map snd rej). v < 0 then Some (ValueError_bad_value kind) else None)"

text \<open>
  \<open>new > old\<close> for \<open>reject\<close>, where a missing key stands for \<open>np.inf\<close>, and \<open>new < old\<close>
  for \<open>flat\<close>, where a missing key stands for \<open>-np.inf\<close>.
\<close>

definition looser_reject :: "real option \<Rightarrow> real option \<Rightarrow> bool" where
  "looser_reject new old =
     (case old of None \<Rightarrow> False
      | Some ov \<Rightarrow> (case new of None \<Rightarrow> True | Some nv \<Rightarrow> nv > ov))"

definition looser_flat :: "real option \<Rightarrow> real option \<Rightarrow> bool" where
  "looser_flat new old =
     (case old of None \<Rightarrow> False
      | Some ov \<Rightarrow> (case new of None \<Rightarrow> True | Some nv \<Rightarrow> nv < ov))"

definition check_stringent ::
  "string \<Rightarrow> (real option \<Rightarrow> real option \<Rightarrow> bool) \<Rightarrow> thresholds \<Rightarrow> thresholds \<Rightarrow> error option" where
  "check_stringent kind looser new old =
     (case List.find (\<lambda>key. looser (map_of new key) (map_of old key))
             (map fst new @ map fst old) of
        None \<Rightarrow> None
      | Some key \<Rightarrow> Some (ValueError_not_stringent kind key))"

definition reject_setup :: "thresholds option \<Rightarrow> thresholds option \<Rightarrow> epochs \<Rightarrow> error option \<times> epochs" where
  "reject_setup rej flt st =
     (let idx = channel_type_idx st; r = items_of rej; f = items_of flt in
      case first_error
             [check_known_types idx ''reject'' r,
              check_known_types idx ''flat'' f,
              check_channels_found idx r f,
              check_values ''Rejection'' r,
              check_values ''Flat'' f,
              check_stringent ''reject'' looser_reject r (items_of (reject st)),
              check_stringent ''flat'' looser_flat f (items_of (flat st))] of
        Some e \<Rightarrow> (Some e, st)
      | None \<Rightarrow>
          (None, st\<lparr>bad_dropped := False,
                    reject := (if r = [] then None else Some r),
                    flat := (if f = [] then None else Some f)\<rparr>))"

subsection \<open>Materialization: \<open>_get_data\<close>\<close>

text \<open>
  The continuous source is an opaque provider: \<open>raw_source\<close> gives, for the sample of an
  event, what \<open>_detrend_offset_decim(_get_epoch_from_raw(idx))\<close> yields (\<open>None\<close> when the
  provider has nothing). The caller has checked that \<open>idx\<close> is a position of \<open>events\<close>.
\<close>

definition get_epoch_from_raw :: "epochs \<Rightarrow> nat \<Rightarrow> raw_epoch" where
  "get_epoch_from_raw st idx =
     (case map_of (raw_source st) (fst (events st ! idx)) of None \<Rightarrow> NoData | Some r \<Rightarrow> r)"

text \<open>
  The first part of the loop body of the rejection pass: the pair
  \<open>(epoch_noproj, epoch)\<close> for the epoch at position \<open>idx\<close>.
\<close>

definition load_epoch :: "epochs \<Rightarrow> nat \<Rightarrow> error + raw_epoch \<times> raw_epoch" where
  "load_epoch st idx =
     (if preload st then
        (if idx < length (data st) then
           (if do_delayed_proj st then
              (case project_epoch st (Segment (data st ! idx)) of
                 Inl err \<Rightarrow> Inl err
               | Inr epoch \<Rightarrow> Inr (Segment (data st ! idx), epoch))
            else Inr (NoData, Segment (data st ! idx)))
         else Inl IndexError_out_of_range)
      else
        (let epoch_noproj = get_epoch_from_raw st idx in
         case project_epoch st epoch_noproj of
           Inl err \<Rightarrow> Inl err
         | Inr epoch \<Rightarrow> Inr (epoch_noproj, epoch)))"

text \<open>
  The state of the loop: \<open>good_idx\<close>, the rows written to \<open>data\<close> so far (\<open>data[:n_out]\<close>)
  and the local copy of the drop log.
\<close>

type_synonym pass_state = "nat list \<times> epoch list \<times> string list list"

definition reject_step :: "epochs \<Rightarrow> bool \<Rightarrow> nat \<times> nat \<Rightarrow> pass_state \<Rightarrow> error option \<times> pass_state" where
  "reject_step st out p acc =
     (case acc of (good_idx, rows, dl) \<Rightarrow>
      (case load_epoch st (fst p) of
         Inl err \<Rightarrow> (Some err, acc)
       | Inr (epoch_noproj, epoch) \<Rightarrow>
           (let epoch_out = (if do_delayed_proj st then epoch_noproj else epoch) in
            case is_good_epoch st epoch of
              Inl err \<Rightarrow> (Some err, acc)
            | Inr (good, bad_tuple) \<Rightarrow>
                (if \<not> good then
                   (case set_entry (snd p) (\<lambda>old. old @ bad_tuple) dl of
                      Inl err \<Rightarrow> (Some err, acc)
                    | Inr dl' \<Rightarrow> (None, (good_idx, rows, dl')))
                 else
                   (case epoch_out of
                      Segment e \<Rightarrow>
                        (None, (good_idx @ [fst p],
                                (if out \<or> preload st then rows @ [e] else rows), dl))
                    | _ \<Rightarrow> (Some AttributeError, acc))))))"

fun reject_loop :: "epochs \<Rightarrow> bool \<Rightarrow> (nat \<times> nat) list \<Rightarrow> pass_state \<Rightarrow> error option \<times> pass_state" where
  "reject_loop st out [] acc = (None, acc)"
| "reject_loop st out (p # ps) acc =
     (case reject_step st out p acc of
        (Some err, acc') \<Rightarrow> (Some err, acc')
      | (None, acc') \<Rightarrow> reject_loop st out ps acc')"

text \<open>The loop of the branch \<open>self._bad_dropped\<close> that reads every epoch from disk.\<close>

fun load_all :: "epochs \<Rightarrow> nat list \<Rightarrow> error + epoch list" where
  "load_all st [] = Inr []"
| "load_all st (idx # idxs) =
     (let epoch_noproj = get_epoch_from_raw st idx in
      case (if do_delayed_proj st then Inr epoch_noproj else project_epoch st epoch_noproj) of
        Inl err \<Rightarrow> Inl err
      | Inr (Segment e) \<Rightarrow>
          (case load_all st idxs of Inl err \<Rightarrow> Inl err | Inr es \<Rightarrow> Inr (e # es))
      | Inr _ \<Rightarrow> Inl AttributeError)"

text \<open>
  \<open>_get_data(out)\<close> with \<open>item=None\<close> and \<open>picks=None\<close>: the exception, the array returned
  and the state. With preloaded data the pass writes the good epochs to the front of
  \<open>self._data\<close> in place, so an exception inside the loop leaves the rows written so far.
\<close>

definition get_data :: "bool \<Rightarrow> epochs \<Rightarrow> error option \<times> epoch list option \<times> epochs" where
  "get_data out st =
     (if bad_dropped st then
        (if \<not> out then (None, None, st)
         else if preload st then (None, Some (data st), st)
         else
           (case load_all st [0..<length (events st)] of
              Inl err \<Rightarrow> (Some err, None, st)
            | Inr d \<Rightarrow> (None, Some d, st)))
      else if length (events st) \<noteq> length (selection st) then (Some AssertionError, None, st)
      else
        (case reject_loop st out (List.enumerate 0 (selection st)) ([], [], drop_log st) of
           (Some err, (good_idx, rows, dl)) \<Rightarrow>
             (Some err, None,
              st\<lparr>data := (if preload st then rows @ List.drop (length rows) (data st)
                            else data st)\<rparr>)
         | (None, (good_idx, rows, dl)) \<Rightarrow>
             (case getitem good_idx None False
                     (st\<lparr>drop_log := dl, bad_dropped := True,
                         data := (if preload st then rows else data st)\<rparr>) of
                (Some err, st') \<Rightarrow> (Some err, None, st')
              | (None, st') \<Rightarrow> (None, (if out then Some rows else None), st'))))"

subsection \<open>\<open>drop_bad\<close> and \<open>load_data\<close>\<close>

text \<open>
  An argument of \<open>drop_bad\<close> is a string (\<open>'existing'\<close> by default) or thresholds
  (a dict or \<open>None\<close>).
\<close>

datatype thr_arg = Str string | Thr "thresholds option"

definition drop_bad :: "thr_arg \<Rightarrow> thr_arg \<Rightarrow> epochs \<Rightarrow> error option \<times> epochs" where
  "drop_bad rej flt st =
     (if rej = Str ''existing'' \<and> flt = Str ''existing'' \<and> bad_dropped st then (None, st)
      else
        (let rej' = (if rej = Str ''existing'' then Thr (reject st) else rej);
             flt' = (if flt = Str ''existing'' then Thr (flat st) else flt)
         in case (rej', flt') of
              (Thr r, Thr f) \<Rightarrow>
                (case reject_setup r f st of
                   (Some err, st') \<Rightarrow> (Some err, st')
                 | (None, st') \<Rightarrow>
                     (case get_data False st' of (res, _, st'') \<Rightarrow> (res, st'')))
            | _ \<Rightarrow> (Some ValueError_strings, st)))"

definition load_data :: "epochs \<Rightarrow> error option \<times> epochs" where
  "load_data st =
     (if preload st then (None, st)
      else
        (case get_data True st of
           (Some err, _, st') \<Rightarrow> (Some err, st')
         | (None, d, st') \<Rightarrow>
             (None, st'\<lparr>data := (case d of None \<Rightarrow> [] | Some rows \<Rightarrow> rows),
                        preload := True\<rparr>)))"

subsection \<open>The invariants: \<open>_check_consistency\<close>\<close>

text \<open>The three assertions of \<open>_check_consistency\<close> on events, selection and drop log.\<close>

definition check_consistency :: "epochs \<Rightarrow> bool" where
  "check_consistency st \<longleftrightarrow>
     length (selection st) = length (events st) \<and>
     length (drop_log st) \<ge> length (events st) \<and>
     length (selection st) = length (filter (\<lambda>dl. length dl = 0) (drop_log st))"

subsection \<open>A concrete collection\<close>

text \<open>
  Three epochs of one EEG channel and two samples, preloaded, with the rejection
  threshold 100 on the peak-to-peak amplitude: the second epoch breaches it.
\<close>

definition example_epochs :: epochs where
  "example_epochs =
     \<lparr>events = [(10, 0, 1), (20, 0, 1), (30, 0, 2)],
      selection = [0, 1, 2],
      drop_log = [[], [], []],
      event_id = [(''a'', 1), (''b'', 2)],
      reject = Some [(''eeg'', 100)],
      flat = None,
      bad_dropped = False,
      preload = True,
      data = [[[0, 50]], [[0, 150]], [[10, 20]]],
      raw_source = [],
      do_delayed_proj = False,
      proj = False,
      projector = None,
      n_times = 2,
      reject_time = None,
      ch_names = [''EEG01''],
      channel_type_idx = [(''eeg'', [0])],
      bads = []\<rparr>"

subsection \<open>Well-formed thresholds\<close>



subsection \<open>Repeated events: \<open>_merge_events\<close> and \<open>_handle_event_repeated\<close>\<close>

text \<open>
  \<open>np.unique\<close> gives the sorted distinct values; with \<open>return_index=True\<close> also the
  position of the first occurrence of each.
\<close>

definition np_unique :: "'a::linorder list \<Rightarrow> 'a list" where
  "np_unique xs = sort (remdups xs)"

definition first_index :: "'a list \<Rightarrow> 'a \<Rightarrow> nat" where
  "first_index xs x = length (takeWhile (\<lambda>y. y \<noteq> x) xs)"

definition unique_index :: "'a::linorder list \<Rightarrow> nat list" where
  "unique_index xs = map (first_index xs) (np_unique xs)"

text \<open>\<open>np.delete(a, idxs, 0)\<close> drops the rows at the given positions.\<close>

definition np_delete :: "'a list \<Rightarrow> nat list \<Rightarrow> 'a list" where
  "np_delete a idxs = map snd (filter (\<lambda>(i, x). i \<notin> set idxs) (List.enumerate 0 a))"

text \<open>\<open>key.split('/')\<close> and \<open>'/'.join(parts)\<close>.\<close>

fun split_slash :: "string \<Rightarrow> string list" where
  "split_slash [] = [[]]"
| "split_slash (c # cs) =
     (if c = CHR ''/'' then [] # split_slash cs
      else (case split_slash cs of [] \<Rightarrow> [[c]] | w # ws \<Rightarrow> (c # w) # ws))"

fun join_slash :: "string list \<Rightarrow> string" where
  "join_slash [] = []"
| "join_slash [w] = w"
| "join_slash (w # ws) = w @ ''/'' @ join_slash ws"

text \<open>\<open>events[:, 1:].flatten()\<close>: the prior codes and the codes of all rows.\<close>

definition flatten_codes :: "event list \<Rightarrow> int list" where
  "flatten_codes evs = concat (map (\<lambda>(s, p, c). [p, c]) evs)"

text \<open>
  The unused value for a merged event: 1 when the smallest value in use is above 1,
  else one more than the value before the first gap, or than the largest value.
\<close>

definition first_gap :: "int list \<Rightarrow> nat option" where
  "first_gap vals =
     List.find (\<lambda>i. vals ! (i + 1) - vals ! i > 1) [0..<length vals - 1]"

definition unused_value :: "(string \<times> int) list \<Rightarrow> event list \<Rightarrow> int" where
  "unused_value eid evs =
     (let ev_vals = np_unique (map snd eid @ flatten_codes evs) in
      if hd ev_vals > 1 then 1
      else (case first_gap ev_vals of
              None \<Rightarrow> last ev_vals + 1
            | Some i \<Rightarrow> ev_vals ! i + 1))"

text \<open>\<open>event_id[key] = val\<close> on a dict in insertion order.\<close>

definition dict_set :: "(string \<times> int) list \<Rightarrow> string \<Rightarrow> int \<Rightarrow> (string \<times> int) list" where
  "dict_set d k v =
     (if k \<in> set (map fst d) then map (\<lambda>(k', v'). if k' = k then (k', v) else (k', v')) d
      else d @ [(k, v)])"

text \<open>\<open>event_id_keys[event_id_vals.index(value)]\<close>: \<open>index\<close> raises for a value not there.\<close>

definition key_of_value :: "(string \<times> int) list \<Rightarrow> int \<Rightarrow> error + string" where
  "key_of_value eid v =
     (case List.find (\<lambda>(k, v'). v' = v) eid of
        None \<Rightarrow> Inl ValueError_not_in_list
      | Some (k, _) \<Rightarrow> Inr k)"

fun keys_of_values :: "(string \<times> int) list \<Rightarrow> int list \<Rightarrow> error + string list" where
  "keys_of_values eid [] = Inr []"
| "keys_of_values eid (v # vs) =
     (case key_of_value eid v of
        Inl e \<Rightarrow> Inl e
      | Inr k \<Rightarrow> (case keys_of_values eid vs of Inl e \<Rightarrow> Inl e | Inr ks \<Rightarrow> Inr (k # ks)))"

text \<open>
  The body of the loop of \<open>_merge_events\<close> for one repeated sample \<open>ev\<close>. The state is
  \<open>(event_id, new_events, event_idxs_to_delete)\<close>; \<open>evs\<close> is the unchanged input.
\<close>

type_synonym merge_state = "(string \<times> int) list \<times> event list \<times> nat list"

definition merge_step :: "event list \<Rightarrow> int \<Rightarrow> merge_state \<Rightarrow> error + merge_state" where
  "merge_step evs ev ms =
     (case ms of (eid, new_events, to_delete) \<Rightarrow>
      (let idxs = filter (\<lambda>i. fst (evs ! i) = ev) [0..<length evs];
           unique_priors = np_unique (map (\<lambda>i. fst (snd (evs ! i))) idxs);
           new_prior = (if length unique_priors = 1 then hd unique_priors else 0);
           ev_vals = np_unique (map (\<lambda>i. snd (snd (evs ! i))) idxs)
       in case (if length ev_vals \<le> 1 then Inr (hd ev_vals, eid)
                else
                  (case keys_of_values eid ev_vals of
                     Inl e \<Rightarrow> Inl e
                   | Inr new_key_comps \<Rightarrow>
                       (case List.find (\<lambda>(key, v). set (split_slash key) = set new_key_comps) eid of
                          Some (key, v) \<Rightarrow> Inr (v, eid)
                        | None \<Rightarrow>
                            (let new_event_val = unused_value eid evs in
                             Inr (new_event_val,
                                  dict_set eid (join_slash (sort new_key_comps)) new_event_val))))) of
            Inl e \<Rightarrow> Inl e
          | Inr (new_event_val, eid') \<Rightarrow>
              Inr (eid',
                   new_events[hd idxs := (fst (new_events ! hd idxs), new_prior, new_event_val)],
                   to_delete @ tl idxs)))"

fun merge_loop :: "event list \<Rightarrow> int list \<Rightarrow> merge_state \<Rightarrow> error + merge_state" where
  "merge_loop evs [] ms = Inr ms"
| "merge_loop evs (ev # rest) ms =
     (case merge_step evs ev ms of Inl e \<Rightarrow> Inl e | Inr ms' \<Rightarrow> merge_loop evs rest ms')"

definition merge_events ::
  "event list \<Rightarrow> (string \<times> int) list \<Rightarrow> nat list \<Rightarrow>
   error + event list \<times> (string \<times> int) list \<times> nat list" where
  "merge_events evs eid sel =
     (let samples = map fst evs;
          repeated = filter (\<lambda>s. count_list samples s > 1) (np_unique samples)
      in case merge_loop evs repeated (eid, evs, []) of
           Inl e \<Rightarrow> Inl e
         | Inr (eid', new_events, to_delete) \<Rightarrow>
             Inr (np_delete new_events to_delete, eid', np_delete sel to_delete))"

text \<open>
  \<open>_handle_event_repeated\<close>. The drop log is a tuple of tuples of strings, rebuilt with
  the reason appended at the indices that leave the selection.
\<close>

definition prune_event_id :: "event list \<Rightarrow> (string \<times> int) list \<Rightarrow> (string \<times> int) list" where
  "prune_event_id new_events eid = filter (\<lambda>(k, v). v \<in> set (flatten_codes new_events)) eid"

definition handle_event_repeated ::
  "event list \<Rightarrow> (string \<times> int) list \<Rightarrow> string \<Rightarrow> nat list \<Rightarrow> string list list \<Rightarrow>
   error + event list \<times> (string \<times> int) list \<times> nat list \<times> string list list" where
  "handle_event_repeated evs eid event_repeated sel dl =
     (if length evs \<noteq> length sel then Inl AssertionError
      else if length (np_unique (map fst evs)) = length evs then Inr (evs, eid, sel, dl)
      else if event_repeated \<notin> set [''error'', ''drop'', ''merge''] then Inl ValueError_option
      else if event_repeated = ''error'' then Inl RuntimeError_not_unique
      else if event_repeated = ''drop'' then
        (let u_ev_idxs = unique_index (map fst evs);
             new_events = map (\<lambda>i. evs ! i) u_ev_idxs;
             new_selection = map (\<lambda>i. sel ! i) u_ev_idxs
         in case set_entries (setdiff1d sel new_selection) (\<lambda>old. old @ [''DROP DUPLICATE'']) dl of
              Inl e \<Rightarrow> Inl e
            | Inr dl' \<Rightarrow> Inr (new_events, prune_event_id new_events eid, new_selection, dl'))
      else
        (case merge_events evs eid sel of
           Inl e \<Rightarrow> Inl e
         | Inr (new_events, eid', new_selection) \<Rightarrow>
             (case set_entries (setdiff1d sel new_selection)
                     (\<lambda>old. old @ [''MERGE DUPLICATE'']) dl of
                Inl e \<Rightarrow> Inl e
              | Inr dl' \<Rightarrow> Inr (new_events, prune_event_id new_events eid', new_selection, dl'))))"

subsection \<open>Equalization: \<open>_get_drop_indices\<close> and \<open>_minimize_time_diff\<close>\<close>

text \<open>
  \<open>interp1d(np.arange(len(t)), t, fill_value=t[-1], bounds_error=False)\<close> of SciPy, read at
  the integer position \<open>x\<close>: the value \<open>t[x]\<close> inside the range, the fill value beyond
  it. The code reads the interpolants at integer positions only. Event times are
  numbers, here reals.
\<close>

definition interp_fill :: "real list \<Rightarrow> nat \<Rightarrow> real" where
  "interp_fill t x = (if x < length t then t ! x else last t)"

text \<open>\<open>t_longer[km]\<close> for a boolean mask \<open>km\<close>.\<close>

definition masked :: "'a list \<Rightarrow> bool list \<Rightarrow> 'a list" where
  "masked t km = map fst (filter snd (zip t km))"

text \<open>
  The score of one candidate: \<open>np.abs(d1).sum() + np.abs(d2).sum()\<close> with
  \<open>d1 = longer_interp(x1) - t_shorter\<close> and \<open>d2 = shorter_interp(x2) - t_keeps\<close>.
\<close>

definition removal_score :: "real list \<Rightarrow> real list \<Rightarrow> real" where
  "removal_score t_shorter t_keep =
     sum_list (map (\<lambda>j. \<bar>interp_fill t_keep j - t_shorter ! j\<bar>) [0..<length t_shorter]) +
     sum_list (map (\<lambda>j. \<bar>interp_fill t_shorter j - t_keep ! j\<bar>) [0..<length t_keep])"

text \<open>
  \<open>np.argmin\<close> on the scores, where \<open>None\<close> is the \<open>np.inf\<close> of the entries that are
  already removed: the first position of the least value.
\<close>

definition less_inf :: "real option \<Rightarrow> real option \<Rightarrow> bool" where
  "less_inf a b =
     (case a of None \<Rightarrow> False
      | Some x \<Rightarrow> (case b of None \<Rightarrow> True | Some y \<Rightarrow> x < y))"

fun argmin_from :: "nat \<Rightarrow> real option \<Rightarrow> nat \<Rightarrow> real option list \<Rightarrow> nat" where
  "argmin_from best bv i [] = best"
| "argmin_from best bv i (s # ss) =
     (if less_inf s bv then argmin_from i s (i + 1) ss else argmin_from best bv (i + 1) ss)"

definition argmin_scores :: "real option list \<Rightarrow> nat" where
  "argmin_scores scores = (case scores of [] \<Rightarrow> 0 | s # ss \<Rightarrow> argmin_from 0 s 1 ss)"

definition removal_scores :: "real list \<Rightarrow> real list \<Rightarrow> bool list \<Rightarrow> real option list" where
  "removal_scores t_shorter t_longer keep =
     map (\<lambda>i. if keep ! i then Some (removal_score t_shorter (masked t_longer (keep[i := False])))
               else None)
       [0..<length t_longer]"

text \<open>The loop \<open>for ii in range(len(t_longer) - len(t_shorter))\<close>.\<close>

fun minimize_loop :: "nat \<Rightarrow> real list \<Rightarrow> real list \<Rightarrow> bool list \<Rightarrow> bool list" where
  "minimize_loop 0 t_shorter t_longer keep = keep"
| "minimize_loop (Suc n) t_shorter t_longer keep =
     minimize_loop n t_shorter t_longer
       (keep[argmin_scores (removal_scores t_shorter t_longer keep) := False])"

definition minimize_time_diff :: "real list \<Rightarrow> real list \<Rightarrow> bool list" where
  "minimize_time_diff t_shorter t_longer =
     (if length t_shorter = 0 then replicate (length t_longer) False
      else minimize_loop (length t_longer - length t_shorter) t_shorter t_longer
             (replicate (length t_longer) True))"

text \<open>\<open>np.argmin\<close> of the lengths: the first group of least length.\<close>

fun argmin_length :: "nat \<Rightarrow> nat \<Rightarrow> nat \<Rightarrow> 'a list list \<Rightarrow> nat" where
  "argmin_length best bl i [] = best"
| "argmin_length best bl i (e # es) =
     (if length e < bl then argmin_length i (length e) (i + 1) es
      else argmin_length best bl (i + 1) es)"

definition where_not :: "bool list \<Rightarrow> nat list" where
  "where_not km = filter (\<lambda>i. \<not> km ! i) [0..<length km]"

definition get_drop_indices :: "real list list \<Rightarrow> string \<Rightarrow> error + nat list list" where
  "get_drop_indices event_times method =
     (case event_times of
        [] \<Rightarrow> Inl ValueError_zero_size
      | e0 # es \<Rightarrow>
          (let small_e_times = event_times ! argmin_length 0 (length e0) 1 es in
           if method \<noteq> ''mintime'' \<and> method \<noteq> ''truncate'' then Inl ValueError_option
           else
             Inr (map (\<lambda>e. where_not
                        (if method = ''mintime'' then minimize_time_diff small_e_times e
                         else replicate (min (length small_e_times) (length e)) True @
                              replicate (length e - length small_e_times) False))
                    event_times)))"

subsection \<open>Splitting on save: the size estimate of \<open>BaseEpochs.save\<close>\<close>

text \<open>
  What \<open>save\<close> measures on the collection before it splits: \<open>d.nbytes\<close> of one epoch,
  \<open>len(self)\<close>, \<open>object_size(self.info) + 16 * len(self.info)\<close>,
  \<open>len(_event_id_string(self.event_id))\<close>, \<open>self.events.size\<close>, the length of the written
  metadata if any, whether there is a baseline, \<open>len(json.dumps(self.drop_log))\<close>,
  \<open>len(self.selection)\<close>, the length of the written reject parameters if any, and the
  constant \<open>_NEXT_FILE_BUFFER\<close> of \<open>mne/io/write.py\<close>. Python integers are unbounded.
\<close>

record save_sizes =
  d_nbytes :: int
  n_epochs :: nat
  info_size :: int
  event_id_string_len :: int
  events_size :: int
  metadata_len :: "int option"
  has_baseline :: bool
  drop_log_json_len :: int
  selection_size :: int
  reject_params_len :: "int option"
  next_file_buffer :: int

definition total_size :: "bool \<Rightarrow> save_sizes \<Rightarrow> int" where
  "total_size single sz =
     (let t0 = (if n_epochs sz = 0 then 0 else d_nbytes sz * int (n_epochs sz));
          t1 = (if single then t0 div 2 else t0);
          t2 = t1 + events_size sz * 4;
          t3 = (case metadata_len sz of None \<Rightarrow> t2 | Some m \<Rightarrow> t2 + m)
      in t3 + selection_size sz * 4)"

definition over_size :: "save_sizes \<Rightarrow> int" where
  "over_size sz =
     32 + 132 + info_size sz + (event_id_string_len sz + 72) + 56 +
     (40 * (if has_baseline sz then 1 else 0) + 40) +
     (drop_log_json_len sz + 16 + 8 * (selection_size sz - 1)) +
     (case reject_params_len sz of None \<Rightarrow> 0 | Some r \<Rightarrow> r + 16) +
     16 + next_file_buffer sz"

text \<open>
  \<open>np.array_split(np.arange(n), n_parts)\<close> of NumPy: the first \<open>n mod n_parts\<close> sections
  have \<open>n div n_parts + 1\<close> entries, the others \<open>n div n_parts\<close>.
\<close>

definition section_start :: "nat \<Rightarrow> nat \<Rightarrow> nat \<Rightarrow> nat" where
  "section_start n parts k = k * (n div parts) + min k (n mod parts)"

definition array_split :: "nat \<Rightarrow> nat \<Rightarrow> nat list list" where
  "array_split n parts =
     map (\<lambda>k. [section_start n parts k..<section_start n parts (k + 1)]) [0..<parts]"

text \<open>
  The file of a part, as \<open>_save_split\<close> names it: the given name for part 0, else the
  name with \<open>-<part_idx>\<close> before the extension. \<open>_save_part\<close> writes the reference to the
  next file when \<open>next_fname is not None and n_parts > 1\<close>.
\<close>

datatype part_name = Given_name | Numbered nat

record part_file =
  part_fname :: part_name
  epoch_idx :: "nat list"
  next_ref :: "(part_name \<times> nat) option"

definition part_fname_of :: "nat \<Rightarrow> part_name" where
  "part_fname_of part_idx = (if part_idx > 0 then Numbered part_idx else Given_name)"

definition save_split :: "nat \<Rightarrow> nat \<Rightarrow> nat list \<Rightarrow> part_file" where
  "save_split part_idx n_parts idxs =
     \<lparr>part_fname = part_fname_of part_idx,
      epoch_idx = idxs,
      next_ref = (if int part_idx < int n_parts - 1 \<and> n_parts > 1
                  then Some (Numbered (part_idx + 1), part_idx + 1) else None)\<rparr>"

text \<open>
  The part of \<open>save\<close> after \<open>drop_bad\<close>: the checks on the split size, the number of parts
  and the files written. \<open>//\<close> of Python on integers is \<open>div\<close>, and raises for a zero
  divisor.
\<close>

definition n_parts_of :: "int \<Rightarrow> int \<Rightarrow> int \<Rightarrow> int" where
  "n_parts_of tot split_size_bytes over = max ((tot - 1) div (split_size_bytes - over) + 1) 1"

definition save_parts :: "int \<Rightarrow> bool \<Rightarrow> save_sizes \<Rightarrow> error + part_file list" where
  "save_parts split_size_bytes single sz =
     (let tot = total_size single sz;
          over = over_size sz;
          n_per = (if n_epochs sz \<noteq> 0 then tot div int (n_epochs sz) else 0);
          min_size = n_per + over
      in if split_size_bytes < min_size then Inl (ValueError_split_too_small min_size)
         else if split_size_bytes - over = 0 then Inl ZeroDivisionError
         else
           (let n_parts = n_parts_of tot split_size_bytes over in
            if n_parts > 100 then Inl (ValueError_too_many_parts n_parts)
            else
              Inr (map (\<lambda>(part_idx, idxs). save_split part_idx (nat n_parts) idxs)
                     (List.enumerate 0 (array_split (n_epochs sz) (nat n_parts))))))"

text \<open>A collection of 101 epochs, and the least split size that \<open>save\<close> accepts for it.\<close>

definition many_epochs_sizes :: save_sizes where
  "many_epochs_sizes =
     \<lparr>d_nbytes = 160, n_epochs = 101, info_size = 1000, event_id_string_len = 11,
      events_size = 303, metadata_len = None, has_baseline = True, drop_log_json_len = 40,
      selection_size = 101, reject_params_len = None, next_file_buffer = 1048576\<rparr>"

definition few_epochs_sizes :: save_sizes where
  "few_epochs_sizes =
     \<lparr>d_nbytes = 160, n_epochs = 10, info_size = 1000, event_id_string_len = 11,
      events_size = 30, metadata_len = None, has_baseline = True, drop_log_json_len = 40,
      selection_size = 10, reject_params_len = None, next_file_buffer = 1048576\<rparr>"

text \<open>The number of parts as the spec states it: \<open>ceil(total / (split_size - overhead))\<close>, at least 1.\<close>

definition spec_n_parts :: "int \<Rightarrow> int \<Rightarrow> int \<Rightarrow> int" where
  "spec_n_parts tot split_size_bytes over =
     max \<lceil>real_of_int tot / real_of_int (split_size_bytes - over)\<rceil> 1"

subsection \<open>Well-formed collections and the verdict on one epoch\<close>

text \<open>
  The data model of a collection: the selection holds distinct indices of the drop log,
  one per event, and the entries of the drop log that are empty are those of the
  selected indices ("empty = kept"). The constructor builds the drop log this way.
\<close>

definition well_formed :: "epochs \<Rightarrow> bool" where
  "well_formed st \<longleftrightarrow>
     length (selection st) = length (events st) \<and>
     distinct (selection st) \<and>
     (\<forall>k \<in> set (selection st). k < length (drop_log st)) \<and>
     (\<forall>k < length (drop_log st). drop_log st ! k = [] \<longleftrightarrow> k \<in> set (selection st))"

text \<open>
  What the rejection pass decides for the epoch at position \<open>idx\<close>: it loads the epoch
  and calls \<open>_is_good_epoch\<close> on \<open>epoch\<close>, the second component of \<open>load_epoch\<close>.
\<close>

definition epoch_verdict :: "epochs \<Rightarrow> nat \<Rightarrow> error + bool \<times> string list" where
  "epoch_verdict st idx =
     (case load_epoch st idx of
        Inl err \<Rightarrow> Inl err
      | Inr (epoch_noproj, epoch) \<Rightarrow> is_good_epoch st epoch)"

definition verdict_good :: "epochs \<Rightarrow> nat \<Rightarrow> bool" where
  "verdict_good st idx = (case epoch_verdict st idx of Inr (True, _) \<Rightarrow> True | _ \<Rightarrow> False)"

definition verdict_bad :: "epochs \<Rightarrow> nat \<Rightarrow> bool" where
  "verdict_bad st idx = (case epoch_verdict st idx of Inr (False, _) \<Rightarrow> True | _ \<Rightarrow> False)"

definition bad_reasons :: "epochs \<Rightarrow> nat \<Rightarrow> string list" where
  "bad_reasons st idx = (case epoch_verdict st idx of Inr (False, bt) \<Rightarrow> bt | _ \<Rightarrow> [])"

text \<open>The drop log after the pass: the reasons appended at the index of every bad epoch.\<close>

definition bad_update :: "epochs \<Rightarrow> nat \<times> nat \<Rightarrow> string list list \<Rightarrow> string list list" where
  "bad_update st p dl = dl[snd p := dl ! snd p @ bad_reasons st (fst p)]"

subsection \<open>\<open>equalize_event_counts\<close> and sequences of operations\<close>

text \<open>
  \<open>equalize_event_counts\<close>, after the event ids have been resolved: \<open>eq_inds\<close> holds, for
  each entry of \<open>event_ids\<close>, the positions \<open>self._keys_to_idx(eq)\<close> of its epochs (the
  resolution of names and tags is outside this model).
\<close>

fun take_groups :: "'a list \<Rightarrow> nat list list \<Rightarrow> error + 'a list list" where
  "take_groups a [] = Inr []"
| "take_groups a (e # es) =
     (case take_idx a e of
        Inl err \<Rightarrow> Inl err
      | Inr g \<Rightarrow> (case take_groups a es of Inl err \<Rightarrow> Inl err | Inr gs \<Rightarrow> Inr (g # gs)))"

fun reindex :: "nat list list \<Rightarrow> nat list list \<Rightarrow> error + nat list" where
  "reindex (e # es) (idx # idxs) =
     (case take_idx e idx of
        Inl err \<Rightarrow> Inl err
      | Inr g \<Rightarrow> (case reindex es idxs of Inl err \<Rightarrow> Inl err | Inr gs \<Rightarrow> Inr (g @ gs)))"
| "reindex _ _ = Inr []"

definition equalize_event_counts :: "nat list list \<Rightarrow> string \<Rightarrow> epochs \<Rightarrow> error option \<times> epochs" where
  "equalize_event_counts eq_inds method st =
     (if eq_inds = [] then (Some ValueError_event_ids, st)
      else
        (case (if \<not> bad_dropped st then drop_bad (Str ''existing'') (Str ''existing'') st
               else (None, st)) of
           (Some err, st1) \<Rightarrow> (Some err, st1)
         | (None, st1) \<Rightarrow>
             (case take_groups (map fst (events st1)) eq_inds of
                Inl err \<Rightarrow> (Some err, st1)
              | Inr event_times \<Rightarrow>
                  (case get_drop_indices (map (map real_of_int) event_times) method of
                     Inl err \<Rightarrow> (Some err, st1)
                   | Inr indices \<Rightarrow>
                       (case reindex eq_inds indices of
                          Inl err \<Rightarrow> (Some err, st1)
                        | Inr dropped \<Rightarrow>
                            drop_epochs (map int dropped) ''EQUALIZED_COUNT'' st1)))))"

text \<open>
  The operations of the claims on a collection, and a caller that applies a sequence
  of them, going on after an exception with the collection as the failed call left it.
\<close>

datatype operation =
    Drop "int list" string
  | Drop_bad thr_arg thr_arg
  | Get_data bool
  | Load_data
  | Equalize "nat list list" string

fun apply_operation :: "operation \<Rightarrow> epochs \<Rightarrow> error option \<times> epochs" where
  "apply_operation (Drop indices reason) st = drop_epochs indices reason st"
| "apply_operation (Drop_bad rej flt) st = drop_bad rej flt st"
| "apply_operation (Get_data out) st = (case get_data out st of (res, d, st') \<Rightarrow> (res, st'))"
| "apply_operation Load_data st = load_data st"
| "apply_operation (Equalize eq_inds method) st = equalize_event_counts eq_inds method st"

fun run :: "operation list \<Rightarrow> epochs \<Rightarrow> epochs" where
  "run [] st = st"
| "run (opn # ops) st = run ops (snd (apply_operation opn st))"

section \<open>Properties\<close>

subsection \<open>Subsetting keeps the flags\<close>

lemma getitem_bad_dropped:
  "getitem item reason sd st = (None, st') \<Longrightarrow> bad_dropped st' = bad_dropped st"
  by (auto simp: getitem_def split: sum.splits if_splits option.splits)

lemma get_data_bad_dropped: "get_data out st = (None, d, st') \<Longrightarrow> bad_dropped st'"
  by (auto simp: get_data_def split: if_splits sum.splits prod.splits option.splits
      dest!: getitem_bad_dropped)

subsection \<open>Idempotence of \<open>drop_bad\<close>\<close>

text \<open>
  C2. When \<open>drop_bad()\<close> with the default \<open>'existing'\<close> thresholds returns, the full pass
  has completed (\<open>_bad_dropped\<close> is set), and a second call with \<open>'existing'\<close> thresholds
  returns at once with the very same state: events, selection, drop log and data are
  those left by the first call.
\<close>

theorem drop_bad_idempotent:
  "drop_bad (Str ''existing'') (Str ''existing'') st = (None, st') \<Longrightarrow>
   bad_dropped st' \<and> drop_bad (Str ''existing'') (Str ''existing'') st' = (None, st')"
proof -
  assume first_call: "drop_bad (Str ''existing'') (Str ''existing'') st = (None, st')"
  have "bad_dropped st'"
    using first_call
    by (auto simp: drop_bad_def split: if_splits prod.splits option.splits
        dest: get_data_bad_dropped)
  then show ?thesis by (simp add: drop_bad_def)
qed

lemma example_drop_bad:
  "drop_bad (Str ''existing'') (Str ''existing'') example_epochs =
     (None, example_epochs\<lparr>events := [(10, 0, 1), (30, 0, 2)], selection := [0, 2],
        drop_log := [[], [''EEG01''], []], bad_dropped := True,
        data := [[[0, 50]], [[10, 20]]]\<rparr>)"
  by code_simp

theorem drop_bad_idempotent_witness:
  "drop_bad (Str ''existing'') (Str ''existing'') example_epochs =
     (None, example_epochs\<lparr>events := [(10, 0, 1), (30, 0, 2)], selection := [0, 2],
        drop_log := [[], [''EEG01''], []], bad_dropped := True,
        data := [[[0, 50]], [[10, 20]]]\<rparr>) \<and>
   drop_bad (Str ''existing'') (Str ''existing'')
     (example_epochs\<lparr>events := [(10, 0, 1), (30, 0, 2)], selection := [0, 2],
        drop_log := [[], [''EEG01''], []], bad_dropped := True,
        data := [[[0, 50]], [[10, 20]]]\<rparr>) =
     (None, example_epochs\<lparr>events := [(10, 0, 1), (30, 0, 2)], selection := [0, 2],
        drop_log := [[], [''EEG01''], []], bad_dropped := True,
        data := [[[0, 50]], [[10, 20]]]\<rparr>)"
  using drop_bad_idempotent [OF example_drop_bad] example_drop_bad by simp

subsection \<open>Bounds of \<open>drop\<close>\<close>

lemma out_of_bounds_iff: "out_of_bounds n i \<longleftrightarrow> i < - int n \<or> int n \<le> i"
  by (auto simp: out_of_bounds_def Let_def)

lemma set_setdiff1d: "set (setdiff1d a b) = set a - set b"
  by (auto simp: setdiff1d_def)

lemma set_drop_keep:
  assumes "\<forall>i \<in> set indices. \<not> out_of_bounds n i"
  shows "set (drop_keep n indices) = {k. k < n \<and> int k \<notin> set indices \<and> int k - int n \<notin> set indices}"
proof -
  have "k \<in> set (map nat (try_idx n indices)) \<longleftrightarrow> int k \<in> set indices \<or> int k - int n \<in> set indices"
    if "k < n" for k
  proof
    assume "k \<in> set (map nat (try_idx n indices))"
    then obtain i where i: "i \<in> set indices" "k = nat (if i < 0 then i + int n else i)"
      by (auto simp: try_idx_def)
    with assms have "\<not> out_of_bounds n i" by blast
    with i show "int k \<in> set indices \<or> int k - int n \<in> set indices"
      by (auto simp: out_of_bounds_def Let_def split: if_splits)
  next
    assume "int k \<in> set indices \<or> int k - int n \<in> set indices"
    then show "k \<in> set (map nat (try_idx n indices))"
    proof
      assume "int k \<in> set indices"
      then have "nat (if int k < 0 then int k + int n else int k) \<in> set (map nat (try_idx n indices))"
        unfolding try_idx_def by (metis (no_types, lifting) image_eqI list.set_map)
      then show ?thesis by simp
    next
      assume a: "int k - int n \<in> set indices"
      have "nat (if int k - int n < 0 then int k - int n + int n else int k - int n) \<in> set (map nat (try_idx n indices))"
        unfolding try_idx_def using a by (metis (no_types, lifting) image_eqI list.set_map)
      with that show ?thesis by simp
    qed
  qed
  then show ?thesis by (auto simp: drop_keep_def set_setdiff1d)
qed

text \<open>
  C10. In \<open>drop(indices)\<close>, when some index lies outside \<open>[0, len(events))\<close> after
  \<open>len(events)\<close> has been added to the negative entries, the call raises \<open>IndexError\<close>
  (for such an index) and the collection is unchanged. When every index is in range,
  the call subsets the collection to the positions \<open>k\<close> that no index denotes, where a
  negative index \<open>i\<close> denotes the position \<open>len(events) + i\<close>.
\<close>

theorem drop_index_bounds:
  assumes "n = length (events st)"
  shows "((\<exists>i \<in> set indices. out_of_bounds n i) \<longrightarrow>
            (\<exists>i \<in> set indices. out_of_bounds n i \<and>
               drop_epochs indices reason st = (Some (IndexError i), st))) \<and>
         ((\<forall>i \<in> set indices. \<not> out_of_bounds n i) \<longrightarrow>
            drop_epochs indices reason st = getitem (drop_keep n indices) (Some reason) True st \<and>
            set (drop_keep n indices) =
              {k. k < n \<and> int k \<notin> set indices \<and> int k - int n \<notin> set indices})"
proof (intro conjI impI)
  assume "\<exists>i \<in> set indices. out_of_bounds n i"
  then have "filter (out_of_bounds n) indices \<noteq> []"
    by (simp add: filter_empty_conv)
  then obtain first rest where fr: "filter (out_of_bounds n) indices = first # rest"
    by (cases "filter (out_of_bounds n) indices") auto
  then have "first \<in> set (filter (out_of_bounds n) indices)" by simp
  then have "first \<in> set indices" "out_of_bounds n first" by auto
  moreover have "drop_epochs indices reason st = (Some (IndexError first), st)"
    using fr assms by (simp add: drop_epochs_def)
  ultimately show "\<exists>i \<in> set indices. out_of_bounds n i \<and>
      drop_epochs indices reason st = (Some (IndexError i), st)" by blast
next
  assume inr: "\<forall>i \<in> set indices. \<not> out_of_bounds n i"
  then have "filter (out_of_bounds n) indices = []" by (simp add: filter_empty_conv)
  then show "drop_epochs indices reason st = getitem (drop_keep n indices) (Some reason) True st"
    using assms by (simp add: drop_epochs_def)
  show "set (drop_keep n indices) =
      {k. k < n \<and> int k \<notin> set indices \<and> int k - int n \<notin> set indices}"
    using inr by (rule set_drop_keep)
qed

lemma example_drop_last: "drop_epochs [-1] ''USER'' example_epochs =
     (None, example_epochs\<lparr>events := [(10, 0, 1), (20, 0, 1)], selection := [0, 1],
        drop_log := [[], [], [''USER'']], data := [[[0, 50]], [[0, 150]]]\<rparr>)"
  by code_simp
theorem drop_index_bounds_witness:
  "(\<exists>i \<in> set [- 4, 7]. out_of_bounds 3 i \<and>
      drop_epochs [- 4, 7] ''USER'' example_epochs = (Some (IndexError i), example_epochs)) \<and>
   drop_epochs [- 1] ''USER'' example_epochs =
     getitem (drop_keep 3 [- 1]) (Some ''USER'') True example_epochs \<and>
   set (drop_keep 3 [- 1]) = {0, 1} \<and>
   drop_epochs [- 1] ''USER'' example_epochs =
     (None, example_epochs\<lparr>events := [(10, 0, 1), (20, 0, 1)], selection := [0, 1],
        drop_log := [[], [], [''USER'']], data := [[[0, 50]], [[0, 150]]]\<rparr>)"
proof -
  have n: "3 = length (events example_epochs)" by (simp add: example_epochs_def)
  have bad: "\<exists>i \<in> set [- 4, 7]. out_of_bounds 3 i" by (simp add: out_of_bounds_def)
  have ok: "\<forall>i \<in> set [- 1]. \<not> out_of_bounds 3 i" by (simp add: out_of_bounds_def)
  have k: "{k. k < (3::nat) \<and> int k \<notin> set [- 1] \<and> int k - int 3 \<notin> set [- 1]} = {0, 1}"
    by auto
  from drop_index_bounds [OF n, of "[- 4, 7]" "''USER''"] bad
  have 1: "\<exists>i \<in> set [- 4, 7]. out_of_bounds 3 i \<and>
      drop_epochs [- 4, 7] ''USER'' example_epochs = (Some (IndexError i), example_epochs)"
    by blast
  from drop_index_bounds [OF n, of "[- 1]" "''USER''"] ok
  have 2: "drop_epochs [- 1] ''USER'' example_epochs =
     getitem (drop_keep 3 [- 1]) (Some ''USER'') True example_epochs"
    and 3: "set (drop_keep 3 [- 1]) = {k. k < (3::nat) \<and> int k \<notin> set [- 1] \<and> int k - int 3 \<notin> set [- 1]}"
    by blast+
  show ?thesis using 1 2 3 k example_drop_last by simp
qed

subsection \<open>Monotonic strictness of the thresholds\<close>










lemma reject_setup_fails_unchanged:
  "reject_setup rej flt st = (Some e, st') \<Longrightarrow> st' = st"
  by (auto simp: reject_setup_def Let_def split: option.splits)



subsection \<open>Merging repeated events: the example\<close>

text \<open>
  C6. Under the policy \<open>merge\<close>, the events \<open>[[0,0,1],[0,0,2]]\<close> with the event ids
  \<open>{"aud": 1, "vis": 2}\<close> become the single event \<open>[0,0,3]\<close> with the event ids
  \<open>{"aud/vis": 3}\<close>: the name is the slash-joined sorted names of the two events, the code
  3 is the value the code allocates, which is neither a value of the event ids nor a
  code of the events, and the entries \<open>aud\<close> and \<open>vis\<close> are pruned. The second original
  event leaves the selection with the reason \<open>MERGE DUPLICATE\<close>.
\<close>

theorem merge_example:
  "handle_event_repeated [(0, 0, 1), (0, 0, 2)] [(''aud'', 1), (''vis'', 2)] ''merge''
       [0, 1] [[], []] =
     Inr ([(0, 0, 3)], [(''aud/vis'', 3)], [0], [[], [''MERGE DUPLICATE'']]) \<and>
   unused_value [(''aud'', 1), (''vis'', 2)] [(0, 0, 1), (0, 0, 2)] = 3 \<and>
   3 \<notin> set (map snd [(''aud'', 1), (''vis'', 2 :: int)]) \<and>
   3 \<notin> set (flatten_codes [(0, 0, 1), (0, 0, 2)])"
  by code_simp

subsection \<open>Equalizing event counts: the example\<close>

text \<open>
  C8. For the event times \<open>[1, 2, 3, 4, 120, 121]\<close> and \<open>[3.5, 4.5, 120.5, 121.5]\<close> and the
  method \<open>mintime\<close>, the indices to drop are 0 and 1 of the first group (the times 1 and
  2; the times 120 and 121 stay) and none of the second group, so that four events
  remain in each group.
\<close>

theorem equalize_example:
  "get_drop_indices [[1, 2, 3, 4, 120, 121], [7 / 2, 9 / 2, 241 / 2, 243 / 2]] ''mintime'' =
     Inr [[0, 1], []] \<and>
   masked [1, 2, 3, 4, 120, 121 :: real]
     (minimize_time_diff [7 / 2, 9 / 2, 241 / 2, 243 / 2] [1, 2, 3, 4, 120, 121]) =
     [3, 4, 120, 121] \<and>
   length (masked [7 / 2, 9 / 2, 241 / 2, 243 / 2 :: real]
     (minimize_time_diff [7 / 2, 9 / 2, 241 / 2, 243 / 2] [7 / 2, 9 / 2, 241 / 2, 243 / 2])) = 4"
  by code_simp

subsection \<open>Splitting on save\<close>

lemma ceil_div:
  assumes "0 < (d::int)"
  shows "(t - 1) div d + 1 = \<lceil>real_of_int t / real_of_int d\<rceil>"
proof -
  define q where "q = (t - 1) div d"
  define r where "r = (t - 1) mod d"
  have eq: "t - 1 = q * d + r"
    by (simp add: q_def r_def)
  have r: "0 \<le> r" "r < d"
    using assms by (simp_all add: r_def)
  have "q * d < t" using eq r by linarith
  then have "real_of_int (q * d) < real_of_int t" by (simp only: of_int_less_iff)
  then have "real_of_int q * real_of_int d < real_of_int t" by simp
  then have a: "real_of_int (q + 1) - 1 < real_of_int t / real_of_int d"
    using assms by (simp add: pos_less_divide_eq)
  have "q * d + d = (q + 1) * d" by (simp add: algebra_simps)
  then have "t \<le> (q + 1) * d" using eq r by linarith
  then have "real_of_int t \<le> real_of_int ((q + 1) * d)" by (simp only: of_int_le_iff)
  then have "real_of_int t \<le> real_of_int (q + 1) * real_of_int d" by simp
  then have b: "real_of_int t / real_of_int d \<le> real_of_int (q + 1)"
    using assms by (simp add: pos_divide_le_eq)
  have "\<lceil>real_of_int t / real_of_int d\<rceil> = q + 1"
    using a b by (rule ceiling_unique)
  then show ?thesis by (simp add: q_def)
qed

lemma n_parts_of_spec:
  "over < split \<Longrightarrow> n_parts_of tot split over = spec_n_parts tot split over"
  by (simp add: n_parts_of_def spec_n_parts_def ceil_div)

lemma section_start_mono: "section_start n p k \<le> section_start n p (k + 1)"
  by (simp add: section_start_def)

lemma concat_sections:
  "(\<And>k. f k \<le> f (k + 1)) \<Longrightarrow> concat (map (\<lambda>k. [f k..<f (k + 1)]) [0..<p]) = [f 0..<f (p::nat)]"
proof (induction p)
  case 0
  then show ?case by simp
next
  case (Suc p)
  have le: "f 0 \<le> f p" using Suc.prems by (induction p) (auto intro: order_trans)
  obtain d where d: "f (Suc p) = f p + d"
    using Suc.prems [of p] by (auto simp: le_iff_add)
  have ih: "concat (map (\<lambda>k. [f k..<f (k + 1)]) [0..<p]) = [f 0..<f p]"
    using Suc by simp
  have "concat (map (\<lambda>k. [f k..<f (k + 1)]) [0..<Suc p]) =
        concat (map (\<lambda>k. [f k..<f (k + 1)]) [0..<p]) @ [f p..<f (Suc p)]"
    by simp
  also have "\<dots> = [f 0..<f p] @ [f p..<f p + d]"
    by (simp only: ih d)
  also have "\<dots> = [f 0..<f p + d]"
    using le by (rule upt_add_eq_append [symmetric])
  finally show ?case by (simp only: d)
qed

lemma section_start_end: "0 < p \<Longrightarrow> section_start n p p = n"
proof -
  assume "0 < p"
  then have "n mod p < p" by simp
  then have "min p (n mod p) = n mod p" by simp
  then show ?thesis by (simp add: section_start_def)
qed

lemma section_start_0: "section_start n p 0 = 0"
  by (simp add: section_start_def)

lemma concat_array_split:
  assumes "0 < p"
  shows "concat (array_split n p) = [0..<n]"
proof -
  have "concat (map (\<lambda>k. [section_start n p k..<section_start n p (k + 1)]) [0..<p]) =
        [section_start n p 0..<section_start n p p]"
    by (rule concat_sections) (rule section_start_mono)
  then show ?thesis
    by (simp only: array_split_def section_start_0 section_start_end [OF assms])
qed

lemma length_array_split: "length (array_split n p) = p"
  by (simp add: array_split_def)

lemma section_start_Suc:
  "section_start n p (k + 1) = section_start n p k + n div p + (if k < n mod p then 1 else 0)"
  by (simp add: section_start_def)

lemma length_section:
  assumes "k < p"
  shows "length (array_split n p ! k) = n div p \<or> length (array_split n p ! k) = n div p + 1"
proof -
  have "array_split n p ! k = [section_start n p k..<section_start n p (k + 1)]"
    using assms by (simp add: array_split_def)
  then have "length (array_split n p ! k) = n div p + (if k < n mod p then 1 else 0)"
    by (simp only: section_start_Suc length_upt)
  then show ?thesis by (cases "k < n mod p") simp_all
qed

lemma save_parts_too_small:
  "split < (if n_epochs sz \<noteq> 0 then total_size single sz div int (n_epochs sz) else 0) + over_size sz \<Longrightarrow>
   save_parts split single sz =
     Inl (ValueError_split_too_small
       ((if n_epochs sz \<noteq> 0 then total_size single sz div int (n_epochs sz) else 0) + over_size sz))"
  by (simp add: save_parts_def Let_def)

lemma nth_enumerate_map:
  "k < length xs \<Longrightarrow> map (\<lambda>(i, x). f i x) (List.enumerate 0 xs) ! k = f k (xs ! k)"
  by (simp add: nth_enumerate_eq)


lemma epoch_idx_save_split:
  "map epoch_idx (map (\<lambda>(i, x). save_split i P x) (List.enumerate 0 xs)) = xs"
proof -
  have "epoch_idx \<circ> (\<lambda>(i, x). save_split i P x) = snd"
    by (auto simp: save_split_def fun_eq_iff)
  then show ?thesis by (simp add: map_snd_enumerate)   
qed

lemma save_split_next:
  "k < P \<Longrightarrow>
   next_ref (save_split k P x) = (if k + 1 < P then Some (Numbered (k + 1), k + 1) else None)"
  by (auto simp: save_split_def)

lemma save_parts_ok:
  assumes "(if n_epochs sz \<noteq> 0 then total_size single sz div int (n_epochs sz) else 0) + over_size sz \<le> split"
    and "over_size sz < split"
  shows "save_parts split single sz =
     (let N = spec_n_parts (total_size single sz) split (over_size sz) in
      if N > 100 then Inl (ValueError_too_many_parts N)
      else Inr (map (\<lambda>(part_idx, idxs). save_split part_idx (nat N) idxs)
                 (List.enumerate 0 (array_split (n_epochs sz) (nat N)))))"
proof -
  have "\<not> split < (if n_epochs sz \<noteq> 0 then total_size single sz div int (n_epochs sz) else 0) + over_size sz"
    using assms(1) by simp
  moreover have "split - over_size sz \<noteq> 0" using assms(2) by simp
  ultimately show ?thesis
    unfolding save_parts_def Let_def
    by (simp only: if_False n_parts_of_spec [OF assms(2)])
qed

text \<open>
  C5, as the code has it. With the total splittable size, the overhead and the minimum
  size \<open>total // n_epochs + overhead\<close> that \<open>save\<close> computes: a split size below the
  minimum fails with an error that reports the minimum. Otherwise, for a split size
  above the overhead, let \<open>N\<close> be \<open>ceil(total / (split_size - overhead))\<close>, at least 1: when
  \<open>N\<close> exceeds 100 the save fails with an error that reports \<open>N\<close>; else \<open>N\<close> files are
  written, their epoch indices are contiguous groups that partition \<open>0 .. n_epochs - 1\<close>
  in order, each of \<open>n_epochs div N\<close> or one more entries, part \<open>k\<close> goes to the file
  numbered \<open>k\<close> (the given name for part 0) and refers to part \<open>k + 1\<close> as the next file,
  except the last part, which has no reference.
\<close>

theorem save_parts_plan:
  assumes "tot = total_size single sz"
    and "over = over_size sz"
    and "min_size = (if n_epochs sz \<noteq> 0 then tot div int (n_epochs sz) else 0) + over"
    and "N = spec_n_parts tot split over"
  shows
    "(split < min_size \<longrightarrow>
        save_parts split single sz = Inl (ValueError_split_too_small min_size)) \<and>
     (min_size \<le> split \<and> over < split \<and> 100 < N \<longrightarrow>
        save_parts split single sz = Inl (ValueError_too_many_parts N)) \<and>
     (min_size \<le> split \<and> over < split \<and> N \<le> 100 \<longrightarrow>
        (\<exists>files. save_parts split single sz = Inr files \<and>
           int (length files) = N \<and>
           concat (map epoch_idx files) = [0..<n_epochs sz] \<and>
           (\<forall>k < length files.
              part_fname (files ! k) = part_fname_of k \<and>
              (length (epoch_idx (files ! k)) = n_epochs sz div length files \<or>
               length (epoch_idx (files ! k)) = n_epochs sz div length files + 1) \<and>
              next_ref (files ! k) =
                (if k + 1 < length files then Some (Numbered (k + 1), k + 1) else None))))"
proof (intro conjI impI)
  assume "split < min_size"
  then have "split < (if n_epochs sz \<noteq> 0 then total_size single sz div int (n_epochs sz) else 0) +
      over_size sz"
    unfolding assms(3) assms(1) assms(2) .
  then show "save_parts split single sz = Inl (ValueError_split_too_small min_size)"
    unfolding assms(3) assms(1) assms(2) by (rule save_parts_too_small)
next
  assume a: "min_size \<le> split \<and> over < split \<and> 100 < N"
  have m: "(if n_epochs sz \<noteq> 0 then total_size single sz div int (n_epochs sz) else 0) +
      over_size sz \<le> split"
    using a unfolding assms(3) assms(1) assms(2) by blast
  have o: "over_size sz < split"
    using a unfolding assms(2) by blast
  have N: "spec_n_parts (total_size single sz) split (over_size sz) = N"
    unfolding assms(4) assms(1) assms(2) ..
  from a have "100 < N" by blast
  then show "save_parts split single sz = Inl (ValueError_too_many_parts N)"
    using save_parts_ok [OF m o, unfolded Let_def N] by simp
next
  assume a: "min_size \<le> split \<and> over < split \<and> N \<le> 100"
  define files where
    "files = map (\<lambda>(part_idx, idxs). save_split part_idx (nat N) idxs)
               (List.enumerate 0 (array_split (n_epochs sz) (nat N)))"
  have N1: "1 \<le> N" using assms(4) by (simp add: spec_n_parts_def)
  have m: "(if n_epochs sz \<noteq> 0 then total_size single sz div int (n_epochs sz) else 0) +
      over_size sz \<le> split"
    using a unfolding assms(3) assms(1) assms(2) by blast
  have o: "over_size sz < split"
    using a unfolding assms(2) by blast
  have N: "spec_n_parts (total_size single sz) split (over_size sz) = N"
    unfolding assms(4) assms(1) assms(2) ..
  from a have "\<not> 100 < N" by auto
  then have sp: "save_parts split single sz = Inr files"
    using save_parts_ok [OF m o, unfolded Let_def N] by (simp add: files_def)
  have len: "length files = nat N"
    by (simp add: files_def length_array_split)
  have "0 < nat N" using N1 by simp
  then have "concat (array_split (n_epochs sz) (nat N)) = [0..<n_epochs sz]"
    by (rule concat_array_split)
  then have cat: "concat (map epoch_idx files) = [0..<n_epochs sz]"
    unfolding files_def by (simp only: epoch_idx_save_split)
  have nth: "files ! k = save_split k (nat N) (array_split (n_epochs sz) (nat N) ! k)"
    if "k < nat N" for k
    using that by (simp add: files_def nth_enumerate_eq length_array_split)
  have each: "part_fname (files ! k) = part_fname_of k \<and>
              (length (epoch_idx (files ! k)) = n_epochs sz div length files \<or>
               length (epoch_idx (files ! k)) = n_epochs sz div length files + 1) \<and>
              next_ref (files ! k) =
                (if k + 1 < length files then Some (Numbered (k + 1), k + 1) else None)"
    if "k < length files" for k
  proof -
    have k: "k < nat N" using that len by simp
    have e: "epoch_idx (files ! k) = array_split (n_epochs sz) (nat N) ! k"
      by (simp add: nth [OF k] save_split_def)
    show ?thesis
      using length_section [OF k, of "n_epochs sz"] save_split_next [OF k]
      by (simp add: e len nth [OF k]) (simp add: save_split_def)
  qed
  show "\<exists>files. save_parts split single sz = Inr files \<and>
           int (length files) = N \<and>
           concat (map epoch_idx files) = [0..<n_epochs sz] \<and>
           (\<forall>k < length files.
              part_fname (files ! k) = part_fname_of k \<and>
              (length (epoch_idx (files ! k)) = n_epochs sz div length files \<or>
               length (epoch_idx (files ! k)) = n_epochs sz div length files + 1) \<and>
              next_ref (files ! k) =
                (if k + 1 < length files then Some (Numbered (k + 1), k + 1) else None))"
    using sp len cat each N1 by (intro exI [of _ files]) simp
qed

text \<open>
  C5 as stated fails: 101 epochs saved with the least split size that \<open>save\<close> accepts
  would need 101 parts, and the save raises instead of writing them.
\<close>

theorem save_parts_counterexample:
  "\<not> over_size many_epochs_sizes + 96 <
       total_size True many_epochs_sizes div int (n_epochs many_epochs_sizes) +
       over_size many_epochs_sizes \<and>
   spec_n_parts (total_size True many_epochs_sizes) (over_size many_epochs_sizes + 96)
     (over_size many_epochs_sizes) = 101 \<and>
   save_parts (over_size many_epochs_sizes + 96) True many_epochs_sizes =
     Inl (ValueError_too_many_parts 101)"
  by (simp add: save_parts_def n_parts_of_def spec_n_parts_def total_size_def over_size_def many_epochs_sizes_def Let_def)


lemma few_epochs_total: "total_size True few_epochs_sizes = 960"
  by (simp add: total_size_def few_epochs_sizes_def)

lemma few_epochs_over: "over_size few_epochs_sizes = 1050103"
  by (simp add: over_size_def few_epochs_sizes_def)

theorem save_parts_plan_witness:
  "save_parts 1050198 True few_epochs_sizes = Inl (ValueError_split_too_small 1050199) \<and>
   (\<exists>files. save_parts 1050403 True few_epochs_sizes = Inr files \<and>
      int (length files) = 4 \<and> concat (map epoch_idx files) = [0..<10])"
proof -
  have n: "n_epochs few_epochs_sizes = 10" by (simp add: few_epochs_sizes_def)
  have c: "spec_n_parts 960 1050403 1050103 = 4" by (simp add: spec_n_parts_def)
  note small = save_parts_plan [where split = 1050198 and sz = few_epochs_sizes and single = True,
      OF refl refl refl refl]
  note fits = save_parts_plan [where split = 1050403 and sz = few_epochs_sizes and single = True,
      OF refl refl refl refl]
  have "save_parts 1050198 True few_epochs_sizes = Inl (ValueError_split_too_small 1050199)"
    using small by (simp add: few_epochs_total few_epochs_over n)
  moreover have "\<exists>files. save_parts 1050403 True few_epochs_sizes = Inr files \<and>
      int (length files) = 4 \<and> concat (map epoch_idx files) = [0..<10]"
    using fits by (simp add: few_epochs_total few_epochs_over n c) blast
  ultimately show ?thesis by blast
qed

subsection \<open>The rejection pass, step by step\<close>

lemma is_good_bad_nonempty: "is_good e names idx rej flt ign = Inr (False, bt) \<Longrightarrow> bt \<noteq> []"
  by (auto simp: is_good_def Let_def split: sum.splits)

lemma is_good_epoch_bad_nonempty: "is_good_epoch st ep = Inr (False, bt) \<Longrightarrow> bt \<noteq> []"
  by (auto simp: is_good_epoch_def split: raw_epoch.splits if_splits dest: is_good_bad_nonempty)

lemma is_good_epoch_good_segment: "is_good_epoch st ep = Inr (True, bt) \<Longrightarrow> \<exists>e. ep = Segment e"
  by (auto simp: is_good_epoch_def split: raw_epoch.splits)

lemma project_epoch_segment:
  "project_epoch st noproj = Inr (Segment pe) \<Longrightarrow> \<exists>e. noproj = Segment e"
  by (auto simp: project_epoch_def split: raw_epoch.splits option.splits if_splits sum.splits)

lemma load_epoch_out_segment:
  assumes "load_epoch st idx = Inr (epoch_noproj, Segment pe)"
  shows "\<exists>e. (if do_delayed_proj st then epoch_noproj else Segment pe) = Segment e"
  using assms
  by (auto simp: load_epoch_def Let_def split: if_splits sum.splits dest: project_epoch_segment)

lemma verdict_bad_nonempty: "verdict_bad st idx \<Longrightarrow> bad_reasons st idx \<noteq> []"
  by (auto simp: verdict_bad_def bad_reasons_def epoch_verdict_def
      split: sum.splits prod.splits bool.splits dest: is_good_epoch_bad_nonempty)

lemma reject_step_result:
  assumes "reject_step st out p (good, rows, dl) = (None, acc')"
  shows "(verdict_bad st (fst p) \<and> snd p < length dl \<and> acc' = (good, rows, bad_update st p dl)) \<or>
         (verdict_good st (fst p) \<and> (\<exists>rows'. acc' = (good @ [fst p], rows', dl)))"
  using assms
  by (auto simp: reject_step_def verdict_bad_def verdict_good_def bad_reasons_def bad_update_def
      epoch_verdict_def set_entry_def Let_def
      split: sum.splits prod.splits if_splits raw_epoch.splits)

lemma reject_step_total:
  assumes "verdict_good st (fst p) \<or> verdict_bad st (fst p)" and "snd p < length dl"
  shows "\<exists>acc'. reject_step st out p (good, rows, dl) = (None, acc')"
proof -
  obtain noproj ep g bt where l: "load_epoch st (fst p) = Inr (noproj, ep)"
    and v: "is_good_epoch st ep = Inr (g, bt)"
    using assms(1)
    by (auto simp: verdict_bad_def verdict_good_def epoch_verdict_def split: sum.splits prod.splits bool.splits)
  show ?thesis
  proof (cases g)
    case False
    then show ?thesis using l v assms(2)
      by (simp add: reject_step_def set_entry_def)
  next
    case True
    with v have "is_good_epoch st ep = Inr (True, bt)" by simp
    then obtain pe where "ep = Segment pe" using is_good_epoch_good_segment by blast
    with l obtain e where "(if do_delayed_proj st then noproj else ep) = Segment e"
      using load_epoch_out_segment by blast
    then show ?thesis using l v True
      by (simp add: reject_step_def Let_def)
  qed
qed


lemma verdict_good_not_bad: "verdict_good st idx \<Longrightarrow> \<not> verdict_bad st idx"
  by (auto simp: verdict_good_def verdict_bad_def split: sum.splits prod.splits bool.splits)

lemma not_bad_reasons: "\<not> verdict_bad st idx \<Longrightarrow> bad_reasons st idx = []"
  by (auto simp: verdict_bad_def bad_reasons_def split: sum.splits prod.splits bool.splits)

lemma bad_update_good: "\<not> verdict_bad st (fst p) \<Longrightarrow> bad_update st p dl = dl"
  by (simp add: bad_update_def not_bad_reasons)

lemma length_bad_update: "length (bad_update st p dl) = length dl"
  by (simp add: bad_update_def)

lemma length_fold_bad_update: "length (fold (bad_update st) ps dl) = length dl"
  by (induction ps arbitrary: dl) (simp_all add: length_bad_update)

lemma bad_update_empty:
  assumes "k < length dl"
  shows "bad_update st p dl ! k = [] \<longleftrightarrow> dl ! k = [] \<and> (snd p = k \<longrightarrow> \<not> verdict_bad st (fst p))"
proof (cases "snd p = k")
  case True
  then have "bad_update st p dl ! k = dl ! k @ bad_reasons st (fst p)"
    using assms by (simp add: bad_update_def)
  then show ?thesis
    using True verdict_bad_nonempty [of st "fst p"] not_bad_reasons [of st "fst p"] by auto
next
  case False
  then show ?thesis by (simp add: bad_update_def)
qed

lemma fold_bad_update_empty:
  "k < length dl \<Longrightarrow>
   fold (bad_update st) ps dl ! k = [] \<longleftrightarrow>
     dl ! k = [] \<and> (\<forall>p \<in> set ps. snd p = k \<longrightarrow> \<not> verdict_bad st (fst p))"
proof (induction ps arbitrary: dl)
  case Nil
  then show ?case by simp
next
  case (Cons p ps)
  have "k < length (bad_update st p dl)" using Cons.prems by (simp add: length_bad_update)
  then have "fold (bad_update st) ps (bad_update st p dl) ! k = [] \<longleftrightarrow>
      bad_update st p dl ! k = [] \<and> (\<forall>q \<in> set ps. snd q = k \<longrightarrow> \<not> verdict_bad st (fst q))"
    by (rule Cons.IH)
  then show ?case using bad_update_empty [OF Cons.prems, of st p] by auto
qed

lemma reject_loop_result:
  "reject_loop st out ps (good, rows, dl) = (None, (good', rows', dl')) \<Longrightarrow>
   good' = good @ filter (verdict_good st) (map fst ps) \<and>
   dl' = fold (bad_update st) ps dl \<and>
   (\<forall>p \<in> set ps. verdict_good st (fst p) \<or> verdict_bad st (fst p))"
proof (induction ps arbitrary: good rows dl)
  case Nil
  then show ?case by simp
next
  case (Cons p ps)
  from Cons.prems obtain acc1 where step: "reject_step st out p (good, rows, dl) = (None, acc1)"
    and rest: "reject_loop st out ps acc1 = (None, (good', rows', dl'))"
    by (auto split: prod.splits option.splits)
  from reject_step_result [OF step] show ?case
  proof
    assume bad: "verdict_bad st (fst p) \<and> snd p < length dl \<and> acc1 = (good, rows, bad_update st p dl)"
    then have "\<not> verdict_good st (fst p)" using verdict_good_not_bad by blast
    moreover from bad rest have "good' = good @ filter (verdict_good st) (map fst ps) \<and>
        dl' = fold (bad_update st) ps (bad_update st p dl) \<and>
        (\<forall>q \<in> set ps. verdict_good st (fst q) \<or> verdict_bad st (fst q))"
      using Cons.IH by simp
    ultimately show ?thesis using bad by simp
  next
    assume good: "verdict_good st (fst p) \<and> (\<exists>rows1. acc1 = (good @ [fst p], rows1, dl))"
    then obtain rows1 where acc1: "acc1 = (good @ [fst p], rows1, dl)" by blast
    from rest have "good' = (good @ [fst p]) @ filter (verdict_good st) (map fst ps) \<and>
        dl' = fold (bad_update st) ps dl \<and>
        (\<forall>q \<in> set ps. verdict_good st (fst q) \<or> verdict_bad st (fst q))"
      unfolding acc1 by (rule Cons.IH)
    moreover have "bad_update st p dl = dl"
      using good verdict_good_not_bad bad_update_good by blast
    ultimately show ?thesis using good by simp
  qed
qed

lemma reject_loop_total:
  "(\<forall>p \<in> set ps. (verdict_good st (fst p) \<or> verdict_bad st (fst p)) \<and> snd p < length dl) \<Longrightarrow>
   \<exists>acc'. reject_loop st out ps (good, rows, dl) = (None, acc')"
proof (induction ps arbitrary: good rows dl)
  case Nil
  then show ?case by simp
next
  case (Cons p ps)
  then have "verdict_good st (fst p) \<or> verdict_bad st (fst p)" "snd p < length dl" by simp_all
  then obtain acc1 where step: "reject_step st out p (good, rows, dl) = (None, acc1)"
    using reject_step_total by blast
  obtain good1 rows1 dl1 where acc1: "acc1 = (good1, rows1, dl1)" by (cases acc1) auto
  have "length dl1 = length dl"
    using reject_step_result [OF step] acc1 by (auto simp: length_bad_update)
  then have "\<forall>q \<in> set ps. (verdict_good st (fst q) \<or> verdict_bad st (fst q)) \<and> snd q < length dl1"
    using Cons.prems by simp
  then have "\<exists>acc'. reject_loop st out ps (good1, rows1, dl1) = (None, acc')"
    by (rule Cons.IH)
  then show ?case using step acc1 by simp
qed

subsection \<open>Well-formed collections stay well-formed\<close>

lemma well_formed_consistent:
  assumes "well_formed st"
  shows "check_consistency st"
proof -
  let ?dl = "drop_log st"
  have "length (filter (\<lambda>d. length d = 0) ?dl) = card {k. k < length ?dl \<and> length (?dl ! k) = 0}"
    by (rule length_filter_conv_card)
  also have "{k. k < length ?dl \<and> length (?dl ! k) = 0} = set (selection st)"
    using assms by (auto simp: well_formed_def)
  also have "card (set (selection st)) = length (selection st)"
    using assms by (simp add: well_formed_def distinct_card)
  finally have count: "length (selection st) = length (filter (\<lambda>d. length d = 0) ?dl)" by simp
  have "card (set (selection st)) \<le> card {..<length ?dl}"
    using assms by (intro card_mono) (auto simp: well_formed_def)
  then have le: "length (selection st) \<le> length ?dl"
    using assms by (simp add: well_formed_def distinct_card)
  have eq: "length (selection st) = length (events st)"
    using assms by (simp add: well_formed_def)
  show ?thesis
    unfolding check_consistency_def using le eq count by simp
qed

lemma distinct_map_nth:
  assumes "distinct xs" "distinct idx" "\<forall>i \<in> set idx. i < length xs"
  shows "distinct (map (\<lambda>i. xs ! i) idx)"
proof -
  have "inj_on (\<lambda>i. xs ! i) (set idx)"
    using assms(1,3) by (auto simp: inj_on_def nth_eq_iff_index_eq)
  then show ?thesis using assms(2) by (simp add: distinct_map)
qed

lemma set_entries_const:
  "\<forall>k \<in> set ks. k < length xs \<Longrightarrow>
   \<exists>ys. set_entries ks (\<lambda>_. v) xs = Inr ys \<and> length ys = length xs \<and>
     (\<forall>k < length xs. ys ! k = (if k \<in> set ks then v else xs ! k))"
proof (induction ks arbitrary: xs)
  case Nil
  then show ?case by simp
next
  case (Cons a ks)
  let ?xs1 = "xs[a := v]"
  have a: "a < length xs" using Cons.prems by simp
  have "\<forall>k \<in> set ks. k < length ?xs1" using Cons.prems by simp
  then obtain ys where ys: "set_entries ks (\<lambda>_. v) ?xs1 = Inr ys" "length ys = length ?xs1"
    "\<forall>k < length ?xs1. ys ! k = (if k \<in> set ks then v else ?xs1 ! k)"
    using Cons.IH by blast
  have "set_entries (a # ks) (\<lambda>_. v) xs = Inr ys"
    using a ys(1) by (simp add: set_entry_def)
  moreover have "length ys = length xs" using ys(2) by simp
  moreover have "\<forall>k < length xs. ys ! k = (if k \<in> set (a # ks) then v else xs ! k)"
    using ys(3) a by (auto simp: nth_list_update)
  ultimately show ?case by blast
qed

lemma getitem_reason_well_formed:
  assumes wf: "well_formed st"
    and item: "distinct item" "\<forall>i \<in> set item. i < length (selection st)"
    and res: "getitem item (Some r) sd st = (res, st')"
  shows "well_formed st'"
proof (cases res)
  case (Some e)
  then have "st' = st" using res
    by (auto simp: getitem_def split: sum.splits if_splits)
  then show ?thesis using wf by simp
next
  case None
  let ?ks = "map (\<lambda>i. selection st ! i) item"
  have ts: "take_idx (selection st) item = Inr ?ks"
    using item(2) by (simp add: take_idx_def)
  have te: "take_idx (events st) item = Inr (map (\<lambda>i. events st ! i) item)"
    using item(2) wf by (simp add: take_idx_def well_formed_def)
  have "\<forall>k \<in> set (setdiff1d (selection st) ?ks). k < length (drop_log st)"
    using wf by (auto simp: well_formed_def set_setdiff1d)
  from set_entries_const [OF this, of "[r]"] obtain dl where dl: "set_entries (setdiff1d (selection st) ?ks) (\<lambda>_. [r]) (drop_log st) = Inr dl"
    "length dl = length (drop_log st)"
    "\<forall>k < length (drop_log st). dl ! k = (if k \<in> set (setdiff1d (selection st) ?ks) then [r] else drop_log st ! k)"
    by blast
  have sel': "selection st' = ?ks" and ev': "events st' = map (\<lambda>i. events st ! i) item"
    and dl': "drop_log st' = dl"
    using res None ts te dl(1)
    by (auto simp: getitem_def split: sum.splits if_splits)
  have sub: "set ?ks \<subseteq> set (selection st)"
    using item(2) by auto
  have "distinct ?ks"
    using wf item by (intro distinct_map_nth) (simp_all add: well_formed_def)
  moreover have "\<forall>k \<in> set ?ks. k < length dl"
    using sub wf dl(2) by (auto simp: well_formed_def)
  moreover have "\<forall>k < length dl. dl ! k = [] \<longleftrightarrow> k \<in> set ?ks"
  proof (intro allI impI)
    fix k assume k: "k < length dl"
    then have "dl ! k = (if k \<in> set (setdiff1d (selection st) ?ks) then [r] else drop_log st ! k)"
      using dl(2,3) by simp
    moreover have "drop_log st ! k = [] \<longleftrightarrow> k \<in> set (selection st)"
      using wf k dl(2) by (simp add: well_formed_def)
    ultimately show "dl ! k = [] \<longleftrightarrow> k \<in> set ?ks"
      using sub by (auto simp: set_setdiff1d)
  qed
  ultimately show ?thesis
    by (simp add: well_formed_def sel' ev' dl')
qed

end
